theory Spec2Isabelle
  imports Complex_Main "HOL-Library.Word"
begin

section \<open>Strings of the page\<close>

text \<open>
  The page is TypeScript: a string is a sequence of UTF-16 code units. The regular
  expression of the splitter has no \<^verbatim>\<open>u\<close> flag, so it works on code units too.
  A literal of the source is written \<open>str ''...''\<close>.
\<close>

type_synonym jchar = "16 word"
type_synonym jstring = "jchar list"

definition str :: "string \<Rightarrow> jstring" where
  "str s = map of_char s"

text \<open>\<^verbatim>\<open>l.startsWith(p)\<close> and \<^verbatim>\<open>l.includes(p)\<close>.\<close>

definition startsWith :: "jstring \<Rightarrow> jstring \<Rightarrow> bool" where
  "startsWith l p = (take (length p) l = p)"

fun includes_str :: "jstring \<Rightarrow> jstring \<Rightarrow> bool" where
  "includes_str [] p = (p = [])"
| "includes_str (c # cs) p = (startsWith (c # cs) p \<or> includes_str cs p)"

text \<open>
  The character classes of \<^verbatim>\<open>/^.*?[:\<dots>]\s*/\<close>: the dot matches every code unit
  but the four line terminators; the bracket holds the ASCII colon and the full-width
  colon U+FF1A; \<^verbatim>\<open>\s\<close> is the white space and the line terminators of ECMAScript.
\<close>

definition is_line_terminator :: "jchar \<Rightarrow> bool" where
  "is_line_terminator c = (c = 0x0A \<or> c = 0x0D \<or> c = 0x2028 \<or> c = 0x2029)"

definition is_colon :: "jchar \<Rightarrow> bool" where
  "is_colon c = (c = 0x3A \<or> c = 0xFF1A)"

definition is_white_space :: "jchar \<Rightarrow> bool" where
  "is_white_space c =
     (c = 0x09 \<or> c = 0x0A \<or> c = 0x0B \<or> c = 0x0C \<or> c = 0x0D \<or> c = 0x20 \<or>
      c = 0xA0 \<or> c = 0x1680 \<or> (0x2000 \<le> c \<and> c \<le> 0x200A) \<or> c = 0x2028 \<or>
      c = 0x2029 \<or> c = 0x202F \<or> c = 0x205F \<or> c = 0x3000 \<or> c = 0xFEFF)"

text \<open>
  \<^verbatim>\<open>line.replace(/^.*?[:\<dots>]\s*/, ' ')\<close>. The match is anchored at the start of the
  line and the dot is lazy, so it ends at the first colon of the line; it exists when the
  line has a colon and no line terminator stands before the first one. The colon and the
  white space after it go with it, and one space takes their place. A line with no match
  is returned as it is.
\<close>

definition strip_label :: "jstring \<Rightarrow> jstring" where
  "strip_label line =
     (let label = takeWhile (\<lambda>c. \<not> is_colon c) line;
          from_colon = dropWhile (\<lambda>c. \<not> is_colon c) line
      in if from_colon = [] \<or> list_ex is_line_terminator label then line
         else str '' '' @ dropWhile is_white_space (tl from_colon))"

text \<open>
  \<^verbatim>\<open>content.split(/\n+/)\<close>: every maximal run of line feeds is one separator; a
  separator at either end leaves an empty piece there, and the empty string gives one
  empty piece.
\<close>

function split_newlines :: "jstring \<Rightarrow> jstring list" where
  "split_newlines s =
     (if dropWhile (\<lambda>c. c \<noteq> 0x0A) s = [] then [s]
      else takeWhile (\<lambda>c. c \<noteq> 0x0A) s #
           split_newlines (dropWhile (\<lambda>c. c = 0x0A) (dropWhile (\<lambda>c. c \<noteq> 0x0A) s)))"
  by pat_completeness auto
termination
proof (relation "measure length")
  fix s :: jstring
  assume ne: "dropWhile (\<lambda>c. c \<noteq> 0x0A) s \<noteq> []"
  then obtain c cs where d: "dropWhile (\<lambda>c. c \<noteq> 0x0A) s = c # cs"
    by (cases "dropWhile (\<lambda>c. c \<noteq> 0x0A) s") auto
  then have "c = 0x0A"
    using hd_dropWhile [OF ne] by simp
  then have "length (dropWhile (\<lambda>c. c = 0x0A) (c # cs)) \<le> length cs"
    by (simp add: length_dropWhile_le)
  moreover have "length (c # cs) \<le> length s"
    using length_dropWhile_le [of "\<lambda>c. c \<noteq> 0x0A" s] d by simp
  ultimately show "(dropWhile (\<lambda>c. c = 0x0A) (dropWhile (\<lambda>c. c \<noteq> 0x0A) s), s) \<in> measure length"
    using d by simp
qed simp

declare split_newlines.simps [simp del]

text \<open>\<^verbatim>\<open>content.split(/\n+/).filter(Boolean)\<close>: the empty pieces are dropped.\<close>

definition lines_of :: "jstring \<Rightarrow> jstring list" where
  "lines_of content = filter (\<lambda>l. l \<noteq> []) (split_newlines content)"

section \<open>Splitting a transcript by speaker\<close>

datatype speaker = host | guest

record Chunk =
  speaker :: speaker
  "text" :: jstring

text \<open>The label test of the page: the line holds the label anywhere.\<close>

definition who :: "jstring \<Rightarrow> speaker option" where
  "who l = (if includes_str l (str ''Host:'') then Some host
            else if includes_str l (str ''Guest:'') then Some guest else None)"

text \<open>
  One turn of the loop over the lines, on \<open>(chunks, cur, buf)\<close>. A labelled line closes
  the buffer of another speaker, then adds its own text; a line with no label is added
  only once a speaker is known.
\<close>

fun split_step :: "Chunk list \<times> speaker option \<times> jstring \<Rightarrow> jstring \<Rightarrow>
    Chunk list \<times> speaker option \<times> jstring" where
  "split_step (chunks, cur, buf) line =
     (case who line of
        Some s \<Rightarrow>
          (let (chunks1, buf1) =
                 (if cur \<noteq> None \<and> Some s \<noteq> cur
                  then (chunks @ [\<lparr>speaker = the cur, text = buf\<rparr>], [])
                  else (chunks, buf))
           in (chunks1, Some s, buf1 @ strip_label line @ str '' ''))
      | None \<Rightarrow>
          (if cur \<noteq> None then (chunks, cur, buf @ line @ str '' '')
           else (chunks, cur, buf)))"

fun split_finish :: "Chunk list \<times> speaker option \<times> jstring \<Rightarrow> Chunk list" where
  "split_finish (chunks, cur, buf) =
     (if cur \<noteq> None \<and> buf \<noteq> [] then chunks @ [\<lparr>speaker = the cur, text = buf\<rparr>]
      else chunks)"

definition split_by_speaker :: "jstring \<Rightarrow> Chunk list" where
  "split_by_speaker content = split_finish (foldl split_step ([], None, []) (lines_of content))"

text \<open>
  The earlier page kept in the repository beside the current one splits in the same way
  but for two points: its label test asks for the label at the start of the line, and a
  line with no label is added to the buffer whether a speaker is known or not.
\<close>

definition who_startsWith :: "jstring \<Rightarrow> speaker option" where
  "who_startsWith l = (if startsWith l (str ''Host:'') then Some host
                       else if startsWith l (str ''Guest:'') then Some guest else None)"

fun split_step_startsWith :: "Chunk list \<times> speaker option \<times> jstring \<Rightarrow> jstring \<Rightarrow>
    Chunk list \<times> speaker option \<times> jstring" where
  "split_step_startsWith (chunks, cur, buf) line =
     (case who_startsWith line of
        Some s \<Rightarrow>
          (let (chunks1, buf1) =
                 (if cur \<noteq> None \<and> Some s \<noteq> cur
                  then (chunks @ [\<lparr>speaker = the cur, text = buf\<rparr>], [])
                  else (chunks, buf))
           in (chunks1, Some s, buf1 @ strip_label line @ str '' ''))
      | None \<Rightarrow> (chunks, cur, buf @ line @ str '' ''))"

definition split_by_speaker_startsWith :: "jstring \<Rightarrow> Chunk list" where
  "split_by_speaker_startsWith content =
     split_finish (foldl split_step_startsWith ([], None, []) (lines_of content))"

section \<open>Speech synthesis, one request per chunk\<close>

text \<open>
  A segment of the page is \<^verbatim>\<open>{ url, speaker, text }\<close>: the two fields of a chunk and
  the address of the audio, so the record extends the chunk's.
\<close>

record PodcastSegment = Chunk +
  url :: jstring

text \<open>
  What the page reads of the answer to a speech request. Reading the body with
  \<^verbatim>\<open>arrayBuffer()\<close> can fail as well, with the message of the exception.
\<close>

record response =
  ok :: bool
  status :: nat
  statusText :: jstring
  arrayBuffer :: "jstring + 8 word list"

record speech_request =
  authorization :: jstring
  model :: jstring
  voice :: jstring
  input :: jstring
  format :: jstring

text \<open>
  The outside world of one run of \<^verbatim>\<open>generatePodcast\<close>: the transcript service (asked
  with the key and the topic; it throws, or answers with a text that may be missing), the
  speech service (the answer to the \<open>n\<close>-th request of the run, or the message of the
  exception \<^verbatim>\<open>fetch\<close> throws), the address \<^verbatim>\<open>URL.createObjectURL\<close> gives to the
  \<open>n\<close>-th audio, the two readings of \<^verbatim>\<open>Date.now()\<close> in \<^verbatim>\<open>savePodcastToHistory\<close>,
  and whether \<^verbatim>\<open>localStorage.setItem\<close> throws.
\<close>

record env =
  generateContent :: "jstring \<Rightarrow> jstring \<Rightarrow> jstring + jstring option"
  fetch :: "nat \<Rightarrow> speech_request \<Rightarrow> jstring + response"
  createObjectURL :: "nat \<Rightarrow> 8 word list \<Rightarrow> jstring"
  now_id :: nat
  now_createdAt :: nat
  setItem_throws :: bool

text \<open>A number printed in decimal, as \<^verbatim>\<open>toString()\<close> and a template string do.\<close>

function toString :: "nat \<Rightarrow> jstring" where
  "toString n = (if n < 10 then [of_nat (48 + n)]
                 else toString (n div 10) @ [of_nat (48 + n mod 10)])"
  by pat_completeness auto
termination
  by (relation "measure id") simp_all

declare toString.simps [simp del]

definition speech_request_of :: "jstring \<Rightarrow> Chunk \<Rightarrow> speech_request" where
  "speech_request_of key chunk =
     \<lparr>authorization = str ''Bearer '' @ key,
      model = str ''tts-1'',
      voice = (if speaker chunk = host then str ''alloy'' else str ''nova''),
      input = text chunk,
      format = str ''mp3''\<rparr>"

text \<open>The message of the error thrown on an answer that is not ok; the arrow is U+2192.\<close>

definition tts_error :: "response \<Rightarrow> jstring" where
  "tts_error speechRes =
     str ''TTS API '' @ [0x2192] @ str '' '' @ toString (status speechRes) @ str '' '' @
     statusText speechRes"

text \<open>
  The loop over the chunks, from the \<open>n\<close>-th request of the run on, with the segments
  pushed so far. It returns the requests it has sent, in order, and either the message of
  the exception that ended it or the segments.
\<close>

fun tts_per_chunk :: "env \<Rightarrow> jstring \<Rightarrow> Chunk list \<Rightarrow> nat \<Rightarrow> PodcastSegment list \<Rightarrow>
    speech_request list \<times> (jstring + PodcastSegment list)" where
  "tts_per_chunk E key [] n segs = ([], Inr segs)"
| "tts_per_chunk E key (chunk # rest) n segs =
     (case fetch E n (speech_request_of key chunk) of
        Inl msg \<Rightarrow> ([speech_request_of key chunk], Inl msg)
      | Inr speechRes \<Rightarrow>
          if \<not> ok speechRes then ([speech_request_of key chunk], Inl (tts_error speechRes))
          else (case arrayBuffer speechRes of
                  Inl msg \<Rightarrow> ([speech_request_of key chunk], Inl msg)
                | Inr bufArr \<Rightarrow>
                    (let (sent, res) =
                           tts_per_chunk E key rest (Suc n)
                             (segs @ [\<lparr>speaker = speaker chunk, text = text chunk,
                                       url = createObjectURL E n bufArr\<rparr>])
                     in (speech_request_of key chunk # sent, res))))"

section \<open>The page and its history\<close>

record StoredPodcast =
  id_sp :: jstring
  topic :: jstring
  transcript :: jstring
  segments :: "PodcastSegment list"
  createdAt :: nat

text \<open>
  The item \<^verbatim>\<open>podcast_history\<close> of \<^verbatim>\<open>localStorage\<close>, by what the page makes of it:
  \<open>NoItem\<close> when \<^verbatim>\<open>getItem\<close> gives null or the empty string, \<open>Items h\<close> when the string
  is the JSON text of the list \<open>h\<close> (what \<^verbatim>\<open>JSON.stringify\<close> wrote is what
  \<^verbatim>\<open>JSON.parse\<close> reads back), \<open>Unparsable\<close> for any other string: parsing it, or
  \<^verbatim>\<open>unshift\<close> on what was parsed, throws.
\<close>

datatype stored = NoItem | Unparsable | Items "StoredPodcast list"

text \<open>The state of the component, and the stored item beside it.\<close>

record page =
  apiKey :: jstring
  openaiKey :: jstring
  topic :: jstring
  transcript :: jstring
  segments :: "PodcastSegment list"
  loading :: bool
  error :: jstring
  currentIdx :: nat
  playbackSpeed :: real
  showHistory :: bool
  podcastHistory :: "StoredPodcast list"
  audioReady :: bool
  podcast_history :: stored

definition newPodcast :: "env \<Rightarrow> jstring \<Rightarrow> jstring \<Rightarrow> PodcastSegment list \<Rightarrow> StoredPodcast" where
  "newPodcast E tp tr segs =
     \<lparr>id_sp = toString (now_id E), StoredPodcast.topic = tp, StoredPodcast.transcript = tr,
      StoredPodcast.segments = segs, createdAt = now_createdAt E\<rparr>"

text \<open>
  \<^verbatim>\<open>savePodcastToHistory\<close>: every exception of its body is caught and only logged, so a
  stored string that does not parse, and a write that throws, leave the page as it was.
\<close>

definition savePodcastToHistory :: "env \<Rightarrow> jstring \<Rightarrow> jstring \<Rightarrow> PodcastSegment list \<Rightarrow> page \<Rightarrow> page" where
  "savePodcastToHistory E tp tr segs st =
     (case podcast_history st of
        Unparsable \<Rightarrow> st
      | existing \<Rightarrow>
          (let history = newPodcast E tp tr segs # (case existing of Items h \<Rightarrow> h | _ \<Rightarrow> []);
               trimmed = take 10 history
           in if setItem_throws E then st
              else st\<lparr>podcast_history := Items trimmed, podcastHistory := trimmed\<rparr>))"

text \<open>
  \<^verbatim>\<open>loadPodcastHistory\<close>, run once when the page is mounted: the stored list is shown,
  sorted by \<^verbatim>\<open>createdAt\<close> with the newest first (the sort is stable); nothing is cut.
  With no item, and with one that does not parse, the page is left as it was.
\<close>

fun insert_newest_first :: "StoredPodcast \<Rightarrow> StoredPodcast list \<Rightarrow> StoredPodcast list" where
  "insert_newest_first a [] = [a]"
| "insert_newest_first a (b # bs) =
     (if createdAt b \<le> createdAt a then a # b # bs else b # insert_newest_first a bs)"

definition sort_newest_first :: "StoredPodcast list \<Rightarrow> StoredPodcast list" where
  "sort_newest_first h = foldr insert_newest_first h []"

definition loadPodcastHistory :: "page \<Rightarrow> page" where
  "loadPodcastHistory st =
     (case podcast_history st of
        Items h \<Rightarrow> st\<lparr>podcastHistory := sort_newest_first h\<rparr>
      | _ \<Rightarrow> st)"

definition loadPodcastFromHistory :: "StoredPodcast \<Rightarrow> page \<Rightarrow> page" where
  "loadPodcastFromHistory podcast st =
     st\<lparr>topic := StoredPodcast.topic podcast,
        transcript := StoredPodcast.transcript podcast,
        segments := StoredPodcast.segments podcast,
        currentIdx := 0,
        audioReady := False,
        showHistory := False\<rparr>"

definition clearHistory :: "page \<Rightarrow> page" where
  "clearHistory st = st\<lparr>podcast_history := NoItem, podcastHistory := []\<rparr>"

section \<open>Generating a podcast\<close>

text \<open>
  \<^verbatim>\<open>generatePodcast\<close> is asynchronous. It runs in three parts, and the page answers
  other events between them: the part up to the first \<^verbatim>\<open>await\<close>, the part after the
  transcript service has answered, and the part after the speech loop. The key, the topic
  and the other values the function reads are those of the page \<open>called\<close> on which it
  was started; what it sets, it sets on the page as it is when the part runs.
\<close>

definition generatePodcast_guard :: "page \<Rightarrow> jstring option" where
  "generatePodcast_guard st =
     (if apiKey st = [] then Some (str ''Please provide your Gemini API key.'')
      else if openaiKey st = [] then Some (str ''Please provide your OpenAI API key for TTS.'')
      else if topic st = [] then Some (str ''Please enter a topic.'')
      else None)"

definition generatePodcast_begin :: "page \<Rightarrow> page" where
  "generatePodcast_begin st =
     (case generatePodcast_guard st of
        Some msg \<Rightarrow> st\<lparr>error := msg\<rparr>
      | None \<Rightarrow> st\<lparr>error := [], loading := True, transcript := [], segments := [],
                    currentIdx := 0, audioReady := False\<rparr>)"

definition content_of :: "jstring option \<Rightarrow> jstring" where
  "content_of txt = (case txt of None \<Rightarrow> [] | Some t \<Rightarrow> t)"

definition generatePodcast_transcript :: "env \<Rightarrow> page \<Rightarrow> page \<Rightarrow> page" where
  "generatePodcast_transcript E called st =
     (case generateContent E (apiKey called) (topic called) of
        Inl msg \<Rightarrow> st\<lparr>error := msg, loading := False\<rparr>
      | Inr txt \<Rightarrow> st\<lparr>transcript := content_of txt\<rparr>)"

definition generatePodcast_speech :: "env \<Rightarrow> page \<Rightarrow> page \<Rightarrow> page" where
  "generatePodcast_speech E called st =
     (case generateContent E (apiKey called) (topic called) of
        Inl msg \<Rightarrow> st
      | Inr txt \<Rightarrow>
          (case snd (tts_per_chunk E (openaiKey called) (split_by_speaker (content_of txt)) 0 []) of
             Inl msg \<Rightarrow> st\<lparr>error := msg, loading := False\<rparr>
           | Inr segs \<Rightarrow>
               (savePodcastToHistory E (topic called) (content_of txt) segs
                  (st\<lparr>segments := segs\<rparr>))\<lparr>loading := False\<rparr>))"

text \<open>A run that no other event interrupts.\<close>

definition generatePodcast :: "env \<Rightarrow> page \<Rightarrow> page" where
  "generatePodcast E st =
     (case generatePodcast_guard st of
        Some msg \<Rightarrow> generatePodcast_begin st
      | None \<Rightarrow>
          generatePodcast_speech E st (generatePodcast_transcript E st (generatePodcast_begin st)))"

section \<open>Playback\<close>

definition skipNext :: "page \<Rightarrow> page" where
  "skipNext st =
     (if currentIdx st + 1 < length (segments st) then st\<lparr>currentIdx := currentIdx st + 1\<rparr>
      else st)"

definition onEnded :: "page \<Rightarrow> page" where
  "onEnded st =
     (if currentIdx st + 1 < length (segments st) then st\<lparr>currentIdx := currentIdx st + 1\<rparr>
      else st)"

definition onCanPlay :: "page \<Rightarrow> page" where
  "onCanPlay st = st\<lparr>audioReady := True\<rparr>"

definition onLoadStart :: "page \<Rightarrow> page" where
  "onLoadStart st = st\<lparr>audioReady := False\<rparr>"

definition onError :: "page \<Rightarrow> page" where
  "onError st = st\<lparr>error := str ''Audio playback error occurred''\<rparr>"

text \<open>What the page asks of the audio element, in the order it asks.\<close>

datatype audio_cmd = SetSrc jstring | SetPlaybackRate real | Load | Play | Pause

text \<open>
  The effect that React runs after a render in which \<^verbatim>\<open>currentIdx\<close>, \<^verbatim>\<open>segments\<close> or
  \<^verbatim>\<open>playbackSpeed\<close> has changed. The audio element is in the document exactly when the
  list is not empty, so the test of \<^verbatim>\<open>audioRef.current\<close> adds nothing to the test of
  the length. An index with no segment ends the effect.
\<close>

definition playback_effect :: "page \<Rightarrow> audio_cmd list" where
  "playback_effect st =
     (if segments st \<noteq> [] then
        (if currentIdx st < length (segments st) then
           [SetSrc (url (segments st ! currentIdx st)), SetPlaybackRate (playbackSpeed st)] @
           (if currentIdx st = 0 then [Load] else [Play])
         else [])
      else [])"

text \<open>
  \<^verbatim>\<open>playCurrent\<close>, the handler of the play button, by what it asks of the audio element;
  \<open>src\<close> and \<open>readyState\<close> are those of the element when the button is pressed.
\<close>

definition playCurrent :: "jstring \<Rightarrow> nat \<Rightarrow> page \<Rightarrow> audio_cmd list" where
  "playCurrent src readyState st =
     (if segments st = [] then []
      else if currentIdx st < length (segments st) then
        (if src \<noteq> url (segments st ! currentIdx st)
         then [SetSrc (url (segments st ! currentIdx st)), SetPlaybackRate (playbackSpeed st)]
         else []) @
        (if currentIdx st = 0 \<and> readyState = 0 then [Load] else []) @
        [Play]
      else [])"

definition changePlaybackSpeed :: "real \<Rightarrow> page \<Rightarrow> page" where
  "changePlaybackSpeed speed st = st\<lparr>playbackSpeed := speed\<rparr>"

section \<open>The events of the page\<close>

text \<open>
  The handlers of the page as events, each run in one piece on the page as it is; the
  three parts of \<^verbatim>\<open>generatePodcast\<close> are three events, so that other events can
  come between them.
\<close>

datatype page_event =
    LoadHistory
  | Save env jstring jstring "PodcastSegment list"
  | ClearHistory
  | OpenPodcast StoredPodcast
  | GenerateBegin
  | GenerateTranscript env page
  | GenerateSpeech env page
  | SkipNext
  | Ended
  | CanPlay
  | LoadStart
  | AudioError
  | ChangeSpeed real

fun handle :: "page_event \<Rightarrow> page \<Rightarrow> page" where
  "handle LoadHistory st = loadPodcastHistory st"
| "handle (Save E tp tr segs) st = savePodcastToHistory E tp tr segs st"
| "handle ClearHistory st = clearHistory st"
| "handle (OpenPodcast podcast) st = loadPodcastFromHistory podcast st"
| "handle GenerateBegin st = generatePodcast_begin st"
| "handle (GenerateTranscript E called) st = generatePodcast_transcript E called st"
| "handle (GenerateSpeech E called) st = generatePodcast_speech E called st"
| "handle SkipNext st = skipNext st"
| "handle Ended st = onEnded st"
| "handle CanPlay st = onCanPlay st"
| "handle LoadStart st = onLoadStart st"
| "handle AudioError st = onError st"
| "handle (ChangeSpeed speed) st = changePlaybackSpeed speed st"

definition run_events :: "page_event list \<Rightarrow> page \<Rightarrow> page" where
  "run_events evs st = foldl (\<lambda>st ev. handle ev st) st evs"

section \<open>Definitions used by the properties\<close>

text \<open>
  What the loop of the splitter keeps true of \<open>(chunks, cur, buf)\<close>: no two neighbours
  among the chunks pushed so far have the same speaker, and the last of them has another
  speaker than the current one.
\<close>

definition split_inv :: "Chunk list \<times> speaker option \<times> jstring \<Rightarrow> bool" where
  "split_inv s = (case s of (chunks, cur, buf) \<Rightarrow>
     distinct_adj (map speaker chunks) \<and>
     (chunks = [] \<or> (cur \<noteq> None \<and> last (map speaker chunks) \<noteq> the cur)))"

text \<open>
  A world for the examples: the transcript service answers with three labelled lines, every
  speech request is answered with 200 and an empty body, the \<open>n\<close>-th audio gets the
  address \<^verbatim>\<open>blob:n\<close>, the clock reads 1700 and the storage accepts the write.
\<close>

definition demo_env :: env where
  "demo_env =
     \<lparr>generateContent = (\<lambda>key tp. Inr (Some (str ''Host: a\<newline>Guest: b\<newline>Host: c''))),
      fetch = (\<lambda>n req. Inr \<lparr>ok = True, status = 200, statusText = str ''OK'',
                              arrayBuffer = Inr []\<rparr>),
      createObjectURL = (\<lambda>n bufArr. str ''blob:'' @ toString n),
      now_id = 1700,
      now_createdAt = 1700,
      setItem_throws = False\<rparr>"

definition demo_chunks :: "Chunk list" where
  "demo_chunks = [\<lparr>speaker = host, text = str '' a ''\<rparr>, \<lparr>speaker = guest, text = str '' b ''\<rparr>]"

text \<open>The same world, but the second speech request is answered with 429.\<close>

definition too_many :: response where
  "too_many = \<lparr>ok = False, status = 429, statusText = str ''Too Many Requests'',
                arrayBuffer = Inr []\<rparr>"

definition failing_env :: env where
  "failing_env = demo_env\<lparr>fetch := (\<lambda>n req. if n = 1 then Inr too_many else fetch demo_env n req)\<rparr>"

text \<open>The same world, but the storage refuses the write.\<close>

definition full_env :: env where
  "full_env = demo_env\<lparr>setItem_throws := True\<rparr>"

text \<open>
  A page with both keys and a topic, no podcast on it, and nothing in its history; and the
  same page with one podcast of four segments in its history.
\<close>

definition empty_page :: page where
  "empty_page =
     \<lparr>apiKey = str ''AIza'', openaiKey = str ''sk'', topic = str ''tea'',
      transcript = [], segments = [], loading = False, error = [], currentIdx = 0,
      playbackSpeed = 1, showHistory = False, podcastHistory = [], audioReady = False,
      podcast_history = NoItem\<rparr>"

definition old_podcast :: StoredPodcast where
  "old_podcast =
     \<lparr>id_sp = str ''1600'', StoredPodcast.topic = str ''jazz'',
      StoredPodcast.transcript = str ''Host: w\<newline>Guest: x\<newline>Host: y\<newline>Guest: z'',
      StoredPodcast.segments =
        [\<lparr>speaker = host, text = str '' w '', url = str ''blob:w''\<rparr>,
         \<lparr>speaker = guest, text = str '' x '', url = str ''blob:x''\<rparr>,
         \<lparr>speaker = host, text = str '' y '', url = str ''blob:y''\<rparr>,
         \<lparr>speaker = guest, text = str '' z '', url = str ''blob:z''\<rparr>],
      createdAt = 1600\<rparr>"

definition demo_page :: page where
  "demo_page = empty_page\<lparr>podcastHistory := [old_podcast], podcast_history := Items [old_podcast]\<rparr>"

text \<open>
  A run of \<^verbatim>\<open>generatePodcast\<close> on \<open>demo_page\<close> during which the user opens the podcast of
  the history and presses skip \<open>skips\<close> times, after the transcript has arrived and before
  the speech loop has ended.
\<close>

definition interrupted_run :: "nat \<Rightarrow> page" where
  "interrupted_run skips =
     generatePodcast_speech demo_env demo_page
       ((skipNext ^^ skips)
          (loadPodcastFromHistory old_podcast
             (generatePodcast_transcript demo_env demo_page (generatePodcast_begin demo_page))))"

text \<open>A list of ten stored podcasts, newest first, with the ids 10 down to 1.\<close>

definition stored_numbered :: "nat \<Rightarrow> StoredPodcast" where
  "stored_numbered n =
     \<lparr>id_sp = toString n, StoredPodcast.topic = str ''jazz'', StoredPodcast.transcript = [],
      StoredPodcast.segments = [], createdAt = n\<rparr>"

definition ten_podcasts :: "StoredPodcast list" where
  "ten_podcasts = map stored_numbered [10, 9, 8, 7, 6, 5, 4, 3, 2, 1]"

text \<open>The value of a string of decimal digits.\<close>

definition fromDigits :: "jstring \<Rightarrow> nat" where
  "fromDigits ds = foldl (\<lambda>a c. 10 * a + (unat c - 48)) 0 ds"

text \<open>
  A sequence of saves, each with its own world (its clock readings and its storage) and
  its own topic, transcript and segments.
\<close>

definition save_all :: "(env \<times> jstring \<times> jstring \<times> PodcastSegment list) list \<Rightarrow> page \<Rightarrow> page" where
  "save_all saves st =
     foldl (\<lambda>st (E, tp, tr, segs). savePodcastToHistory E tp tr segs st) st saves"

text \<open>
  The ids of a history are pairwise distinct and are the decimal texts of clock readings
  of the set \<open>T\<close>; the same of the list of the page and of the stored list.
\<close>

definition ids_from :: "nat set \<Rightarrow> StoredPodcast list \<Rightarrow> bool" where
  "ids_from T h = (distinct (map id_sp h) \<and> set (map id_sp h) \<subseteq> toString ` T)"

definition history_ids_from :: "nat set \<Rightarrow> page \<Rightarrow> bool" where
  "history_ids_from T st =
     (ids_from T (podcastHistory st) \<and>
      (case podcast_history st of Items h \<Rightarrow> ids_from T h | _ \<Rightarrow> True))"

text \<open>Neither the history of the page nor the stored list has more than 10 entries.\<close>

definition history_within_cap :: "page \<Rightarrow> bool" where
  "history_within_cap st =
     (length (podcastHistory st) \<le> 10 \<and>
      (case podcast_history st of Items h \<Rightarrow> length h \<le> 10 | _ \<Rightarrow> True))"

text \<open>The page with the ten podcasts in its history and in the storage.\<close>

definition ten_page :: page where
  "ten_page = empty_page\<lparr>podcastHistory := ten_podcasts, podcast_history := Items ten_podcasts\<rparr>"

text \<open>The demo world, but every speech request is answered with 503.\<close>

definition unavailable :: response where
  "unavailable = \<lparr>ok = False, status = 503, statusText = str ''Service Unavailable'',
                   arrayBuffer = Inr []\<rparr>"

definition down_env :: env where
  "down_env = demo_env\<lparr>fetch := (\<lambda>n req. Inr unavailable)\<rparr>"

text \<open>The list that \<^verbatim>\<open>savePodcastToHistory\<close> reads from the storage.\<close>

definition existing_history :: "page \<Rightarrow> StoredPodcast list" where
  "existing_history st = (case podcast_history st of Items h \<Rightarrow> h | _ \<Rightarrow> [])"

section \<open>Properties of the splitter\<close>

text \<open>
  Claim C6. The transcript \<^verbatim>\<open>"Host: a\nGuest: b\nHost: c"\<close> is split into exactly the
  three chunks host \<^verbatim>\<open>" a "\<close>, guest \<^verbatim>\<open>" b "\<close>, host \<^verbatim>\<open>" c "\<close>: each label is gone
  with its colon, and the chunks are in the order of the lines.
\<close>

theorem split_three_turns:
  "split_by_speaker (str ''Host: a\<newline>Guest: b\<newline>Host: c'') =
     [\<lparr>speaker = host, text = str '' a ''\<rparr>,
      \<lparr>speaker = guest, text = str '' b ''\<rparr>,
      \<lparr>speaker = host, text = str '' c ''\<rparr>]"
  by code_simp

lemma split_inv_step: "split_inv s \<Longrightarrow> split_inv (split_step s line)"
  by (cases s) (auto simp: split_inv_def distinct_adj_append_iff split: option.splits)

lemma split_inv_foldl: "split_inv s \<Longrightarrow> split_inv (foldl split_step s ls)"
  by (induction ls arbitrary: s) (simp_all add: split_inv_step)

lemma split_inv_finish: "split_inv s \<Longrightarrow> distinct_adj (map speaker (split_finish s))"
  by (cases s) (auto simp: split_inv_def distinct_adj_append_iff)

lemma split_by_speaker_adj: "distinct_adj (map speaker (split_by_speaker content))"
  unfolding split_by_speaker_def
  by (rule split_inv_finish, rule split_inv_foldl) (simp add: split_inv_def)

text \<open>
  Claim C7, as the claim states it, fails: the two lines of one speaker are merged into
  one chunk, but its text is not \<^verbatim>\<open>" a b "\<close>. Each labelled line is added as a space,
  the text after the label and a space, so two spaces stand between the two texts.
\<close>

theorem split_same_speaker_not_single_space:
  "split_by_speaker (str ''Host: a\<newline>Host: b'') \<noteq> [\<lparr>speaker = host, text = str '' a b ''\<rparr>]"
  by code_simp

text \<open>
  Claim C7, amended. The transcript \<^verbatim>\<open>"Host: a\nHost: b"\<close> is split into exactly one
  chunk, host with the text \<^verbatim>\<open>" a  b "\<close> (two spaces between the texts of the lines);
  and for every transcript, two chunks that follow each other have different speakers: a
  chunk ends only where the speaker changes.
\<close>

theorem split_same_speaker_merges:
  "split_by_speaker (str ''Host: a\<newline>Host: b'') = [\<lparr>speaker = host, text = str '' a  b ''\<rparr>] \<and>
   distinct_adj (map speaker (split_by_speaker content))"
proof
  show "split_by_speaker (str ''Host: a\<newline>Host: b'') = [\<lparr>speaker = host, text = str '' a  b ''\<rparr>]"
    by code_simp
  show "distinct_adj (map speaker (split_by_speaker content))"
    by (rule split_by_speaker_adj)
qed

text \<open>
  Claim C9. On some transcript the splitter of the page, whose label test is
  \<^verbatim>\<open>includes\<close>, and the splitter of the earlier page, whose label test is
  \<^verbatim>\<open>startsWith\<close>, give different chunk lists. The line \<^verbatim>\<open>"Intro Host: hi"\<close> is one:
  the first makes a host chunk of it, the second no chunk at all.
\<close>

theorem label_tests_disagree:
  "\<exists>content. split_by_speaker content \<noteq> split_by_speaker_startsWith content"
proof
  show "split_by_speaker (str ''Intro Host: hi'') \<noteq> split_by_speaker_startsWith (str ''Intro Host: hi'')"
    by code_simp
qed

section \<open>Properties of the decimal text\<close>

lemma fromDigits_snoc: "fromDigits (ds @ [c]) = 10 * fromDigits ds + (unat c - 48)"
  by (simp add: fromDigits_def)

lemma unat_digit: "d < 10 \<Longrightarrow> unat (of_nat (48 + d) :: 16 word) = 48 + d"
  by (subst unat_of_nat) simp

lemma fromDigits_toString: "fromDigits (toString n) = n"
proof (induction n rule: toString.induct)
  case (1 n)
  show ?case
  proof (cases "n < 10")
    case True
    have "toString n = [of_nat (48 + n)]"
      using True by (subst toString.simps) simp
    then show ?thesis
      using True unat_digit [OF True] by (simp add: fromDigits_def)
  next
    case False
    have unfolded: "toString n = toString (n div 10) @ [of_nat (48 + n mod 10)]"
      using False by (subst toString.simps) simp
    have "n mod 10 < 10"
      by simp
    from unat_digit [OF this] "1.IH" [OF False] show ?thesis
      by (simp add: unfolded fromDigits_snoc)
  qed
qed

lemma toString_inj: "toString m = toString n \<Longrightarrow> m = n"
  by (metis fromDigits_toString)

lemma digit_not_space: "d < 10 \<Longrightarrow> (of_nat (48 + d) :: 16 word) \<noteq> 0x20"
proof
  assume d: "d < 10" and e: "(of_nat (48 + d) :: 16 word) = 0x20"
  from e have "unat (of_nat (48 + d) :: 16 word) = unat (0x20 :: 16 word)" by (rule arg_cong)
  with unat_digit [OF d] show False by simp
qed

lemma toString_no_space: "c \<in> set (toString n) \<Longrightarrow> c \<noteq> 0x20"
proof (induction n arbitrary: c rule: toString.induct)
  case (1 n)
  show ?case
  proof (cases "n < 10")
    case True
    have "toString n = [of_nat (48 + n)]"
      using True by (subst toString.simps) simp
    with "1.prems" digit_not_space [OF True] show ?thesis by simp
  next
    case False
    have unfolded: "toString n = toString (n div 10) @ [of_nat (48 + n mod 10)]"
      using False by (subst toString.simps) simp
    have "n mod 10 < 10" by simp
    from digit_not_space [OF this] "1.IH" [OF False] "1.prems" show ?thesis
      by (auto simp: unfolded)
  qed
qed

lemma str_space: "str '' '' = [0x20]"
  by (simp add: str_def)

lemma status_and_text_inj:
  assumes "toString s @ str '' '' @ t = toString s' @ str '' '' @ t'"
  shows "s = s' \<and> t = t'"
proof -
  have tw: "takeWhile (\<lambda>c. c \<noteq> 0x20) (toString n @ str '' '' @ u) = toString n" for n u
    by (simp add: str_space takeWhile_append2 toString_no_space)
  from assms have "takeWhile (\<lambda>c. c \<noteq> 0x20) (toString s @ str '' '' @ t) =
      takeWhile (\<lambda>c. c \<noteq> 0x20) (toString s' @ str '' '' @ t')"
    by simp
  then have "toString s = toString s'"
    by (simp only: tw)
  then have "s = s'" by (rule toString_inj)
  with assms show ?thesis by simp
qed

lemma tts_error_message:
  "tts_error r = str ''TTS API '' @ [0x2192] @ str '' '' @ toString (status r) @ str '' '' @ statusText r"
  by (simp add: tts_error_def)


lemma toString_429: "toString 429 = str ''429''"
  by code_simp

lemma toString_503: "toString 503 = str ''503''"
  by code_simp

lemma toString_1700: "toString 1700 = str ''1700''"
  by code_simp

section \<open>Properties of the speech loop\<close>

lemma tts_per_chunk_Inr:
  "tts_per_chunk E key chunks n segs = (sent, Inr out) \<Longrightarrow>
   map speaker out = map speaker segs @ map speaker chunks \<and>
   map text out = map text segs @ map text chunks"
proof (induction chunks arbitrary: n segs sent)
  case Nil
  then show ?case by simp
next
  case (Cons chunk rest)
  then show ?case
    by (fastforce split: sum.splits if_splits prod.splits)
qed

text \<open>
  Claim C1. When the speech loop ends with a segment list, the list has one segment for
  each chunk, in the order of the chunks: the lengths are equal, and the segment at every
  index has the speaker and the text of the chunk at that index.
\<close>

theorem segments_follow_chunks:
  assumes "snd (tts_per_chunk E key chunks 0 []) = Inr segs"
  shows "length segs = length chunks \<and>
         (\<forall>i<length chunks. speaker (segs ! i) = speaker (chunks ! i) \<and>
                             text (segs ! i) = text (chunks ! i))"
proof -
  from assms have "tts_per_chunk E key chunks 0 [] = (fst (tts_per_chunk E key chunks 0 []), Inr segs)"
    by (metis prod.collapse)
  from tts_per_chunk_Inr [OF this]
  have s: "map speaker segs = map speaker chunks" and t: "map text segs = map text chunks"
    by simp_all
  from s have l: "length segs = length chunks"
    by (rule map_eq_imp_length_eq)
  have "speaker (segs ! i) = speaker (chunks ! i) \<and> text (segs ! i) = text (chunks ! i)"
    if "i < length chunks" for i
    using that l s t by (metis nth_map)
  with l show ?thesis by simp
qed

theorem segments_follow_chunks_witness:
  "snd (tts_per_chunk demo_env (str ''sk'') demo_chunks 0 []) =
     Inr [\<lparr>speaker = host, text = str '' a '', url = str ''blob:0''\<rparr>,
          \<lparr>speaker = guest, text = str '' b '', url = str ''blob:1''\<rparr>] \<and>
   length [\<lparr>speaker = host, text = str '' a '', url = str ''blob:0''\<rparr>,
           \<lparr>speaker = guest, text = str '' b '', url = str ''blob:1''\<rparr>] = length demo_chunks \<and>
   speaker (demo_chunks ! 1) = guest"
proof -
  have run: "snd (tts_per_chunk demo_env (str ''sk'') demo_chunks 0 []) =
     Inr [\<lparr>speaker = host, text = str '' a '', url = str ''blob:0''\<rparr>,
          \<lparr>speaker = guest, text = str '' b '', url = str ''blob:1''\<rparr>]"
    by code_simp
  from segments_follow_chunks [OF run] run show ?thesis
    by (simp add: demo_chunks_def)
qed

lemma tts_per_chunk_fails:
  assumes "k < length chunks"
    and "\<forall>j<k. \<exists>r b. fetch E (n + j) (speech_request_of key (chunks ! j)) = Inr r \<and>
                          ok r \<and> arrayBuffer r = Inr b"
    and "fetch E (n + k) (speech_request_of key (chunks ! k)) = Inr bad"
    and "\<not> ok bad"
  shows "tts_per_chunk E key chunks n segs =
           (map (speech_request_of key) (take (Suc k) chunks), Inl (tts_error bad))"
  using assms
proof (induction chunks arbitrary: k n segs)
  case Nil
  then show ?case by simp
next
  case (Cons chunk rest)
  show ?case
  proof (cases k)
    case 0
    with Cons.prems show ?thesis by simp
  next
    case (Suc k')
    from Cons.prems(2) Suc obtain r b where
      r: "fetch E n (speech_request_of key chunk) = Inr r" "ok r" "arrayBuffer r = Inr b"
      by fastforce
    have k': "k' < length rest"
      using Cons.prems(1) Suc by simp
    have earlier: "\<forall>j<k'. \<exists>r b. fetch E (Suc n + j) (speech_request_of key (rest ! j)) = Inr r \<and>
                                 ok r \<and> arrayBuffer r = Inr b"
    proof (intro allI impI)
      fix j
      assume "j < k'"
      then have "Suc j < k"
        using Suc by simp
      with Cons.prems(2)
      show "\<exists>r b. fetch E (Suc n + j) (speech_request_of key (rest ! j)) = Inr r \<and>
                   ok r \<and> arrayBuffer r = Inr b"
        by fastforce
    qed
    have at: "fetch E (Suc n + k') (speech_request_of key (rest ! k')) = Inr bad"
      using Cons.prems(3) Suc by simp
    from Cons.IH [OF k' earlier at Cons.prems(4)] r Suc show ?thesis
      by simp
  qed
qed

lemma demo_transcript_chunks:
  "split_by_speaker (str ''Host: a\<newline>Guest: b\<newline>Host: c'') =
     [\<lparr>speaker = host, text = str '' a ''\<rparr>,
      \<lparr>speaker = guest, text = str '' b ''\<rparr>,
      \<lparr>speaker = host, text = str '' c ''\<rparr>]"
  by code_simp

lemma empty_page_guard: "generatePodcast_guard empty_page = None"
  by code_simp

text \<open>
  Claim C2. Let the transcript service have answered, and let the request for the chunk
  \<open>k\<close> be the first one whose answer is not ok. Then the speech loop has sent the requests
  for the chunks 0 to \<open>k\<close>, each once and in order, and no other one, and it ends with the
  error whose message is \<^verbatim>\<open>TTS API\<close>, an arrow, the status of that answer in decimal
  and its status text. The last part of \<^verbatim>\<open>generatePodcast\<close> then only sets this message
  as the error and ends the loading, on whatever page it finds: it installs no segment
  list and does not touch the history. A run that nothing interrupts leaves the page with
  the empty segment list. The message tells the status and the status text: no other
  status and no other text give the same message.
\<close>

theorem failed_request_aborts_run:
  assumes gen: "generateContent E (apiKey called) (topic called) = Inr txt"
    and k: "k < length (split_by_speaker (content_of txt))"
    and earlier: "\<forall>j<k. \<exists>r b.
        fetch E j (speech_request_of (openaiKey called) (split_by_speaker (content_of txt) ! j)) = Inr r \<and>
        ok r \<and> arrayBuffer r = Inr b"
    and at: "fetch E k (speech_request_of (openaiKey called) (split_by_speaker (content_of txt) ! k)) = Inr bad"
    and bad: "\<not> ok bad"
  shows "tts_per_chunk E (openaiKey called) (split_by_speaker (content_of txt)) 0 [] =
           (map (speech_request_of (openaiKey called)) (take (Suc k) (split_by_speaker (content_of txt))),
            Inl (str ''TTS API '' @ [0x2192] @ str '' '' @ toString (status bad) @ str '' '' @
                 statusText bad)) \<and>
         generatePodcast_speech E called st =
           st\<lparr>error := str ''TTS API '' @ [0x2192] @ str '' '' @ toString (status bad) @ str '' '' @
                         statusText bad,
              loading := False\<rparr> \<and>
         (generatePodcast_guard called = None \<longrightarrow>
            generatePodcast E called =
              called\<lparr>error := str ''TTS API '' @ [0x2192] @ str '' '' @ toString (status bad) @
                               str '' '' @ statusText bad,
                      loading := False, transcript := content_of txt,
                      segments := [], currentIdx := 0, audioReady := False\<rparr>) \<and>
         (\<forall>s t. str ''TTS API '' @ [0x2192] @ str '' '' @ toString s @ str '' '' @ t =
                 str ''TTS API '' @ [0x2192] @ str '' '' @ toString (status bad) @ str '' '' @
                 statusText bad \<longrightarrow>
                 s = status bad \<and> t = statusText bad)"
proof -
  have loop: "tts_per_chunk E (openaiKey called) (split_by_speaker (content_of txt)) 0 segs =
           (map (speech_request_of (openaiKey called)) (take (Suc k) (split_by_speaker (content_of txt))),
            Inl (tts_error bad))" for segs
    using tts_per_chunk_fails [where n = 0, OF k _ _ bad] earlier at by simp
  have speech: "generatePodcast_speech E called st' = st'\<lparr>error := tts_error bad, loading := False\<rparr>" for st'
    by (simp add: generatePodcast_speech_def gen loop)
  have run: "generatePodcast E called =
              called\<lparr>error := tts_error bad, loading := False, transcript := content_of txt,
                      segments := [], currentIdx := 0, audioReady := False\<rparr>"
    if "generatePodcast_guard called = None"
    using that
    by (simp add: generatePodcast_def speech generatePodcast_transcript_def gen generatePodcast_begin_def)
  have told: "s = status bad \<and> t = statusText bad"
    if "str ''TTS API '' @ [0x2192] @ str '' '' @ toString s @ str '' '' @ t =
        str ''TTS API '' @ [0x2192] @ str '' '' @ toString (status bad) @ str '' '' @ statusText bad"
    for s t
  proof -
    from that have "toString s @ str '' '' @ t = toString (status bad) @ str '' '' @ statusText bad"
      by simp
    then show ?thesis by (rule status_and_text_inj)
  qed
  from loop [of "[]"] speech [of st] run told show ?thesis
    unfolding tts_error_message by blast
qed


theorem failed_request_aborts_run_witness:
  "generatePodcast failing_env empty_page =
     empty_page\<lparr>error := str ''TTS API '' @ [0x2192] @ str '' 429 Too Many Requests'',
                 loading := False,
                 transcript := str ''Host: a\<newline>Guest: b\<newline>Host: c'',
                 segments := [], currentIdx := 0, audioReady := False\<rparr> \<and>
   length (fst (tts_per_chunk failing_env (openaiKey empty_page)
      (split_by_speaker (content_of (Some (str ''Host: a\<newline>Guest: b\<newline>Host: c'')))) 0 [])) = 2 \<and>
   error (generatePodcast down_env empty_page) =
     str ''TTS API '' @ [0x2192] @ str '' 503 Service Unavailable'' \<and>
   segments (generatePodcast down_env empty_page) = []"
proof -
  let ?txt = "Some (str ''Host: a\<newline>Guest: b\<newline>Host: c'')"
  have gen: "generateContent failing_env (apiKey empty_page) (topic empty_page) = Inr ?txt"
    by (simp add: failing_env_def demo_env_def)
  have k: "1 < length (split_by_speaker (content_of ?txt))"
    by (simp add: content_of_def demo_transcript_chunks)
  have earlier: "\<forall>j<1. \<exists>r b.
      fetch failing_env j (speech_request_of (openaiKey empty_page) (split_by_speaker (content_of ?txt) ! j)) = Inr r \<and>
      ok r \<and> arrayBuffer r = Inr b"
    by (simp add: failing_env_def demo_env_def)
  have at: "fetch failing_env 1 (speech_request_of (openaiKey empty_page) (split_by_speaker (content_of ?txt) ! 1)) = Inr too_many"
    by (simp add: failing_env_def)
  have bad: "\<not> ok too_many"
    by (simp add: too_many_def)
  have gen': "generateContent down_env (apiKey empty_page) (topic empty_page) = Inr ?txt"
    by (simp add: down_env_def demo_env_def)
  have k': "0 < length (split_by_speaker (content_of ?txt))"
    by (simp add: content_of_def demo_transcript_chunks)
  have earlier': "\<forall>j<0. \<exists>r b.
      fetch down_env j (speech_request_of (openaiKey empty_page) (split_by_speaker (content_of ?txt) ! j)) = Inr r \<and>
      ok r \<and> arrayBuffer r = Inr b"
    by simp
  have at': "fetch down_env 0 (speech_request_of (openaiKey empty_page) (split_by_speaker (content_of ?txt) ! 0)) = Inr unavailable"
    by (simp add: down_env_def)
  have bad': "\<not> ok unavailable"
    by (simp add: unavailable_def)
  have texts: "status too_many = 429" "statusText too_many = str ''Too Many Requests''"
    "status unavailable = 503" "statusText unavailable = str ''Service Unavailable''"
    by (simp_all add: too_many_def unavailable_def)
  note first = failed_request_aborts_run [OF gen k earlier at bad, of empty_page]
  note second = failed_request_aborts_run [OF gen' k' earlier' at' bad', of empty_page]
  have sent: "length (fst (tts_per_chunk failing_env (openaiKey empty_page)
      (split_by_speaker (content_of ?txt)) 0 [])) = 2"
    unfolding first [THEN conjunct1] by (simp add: content_of_def demo_transcript_chunks)
  from first [THEN conjunct2, THEN conjunct2, THEN conjunct1, THEN mp, OF empty_page_guard]
  have run: "generatePodcast failing_env empty_page =
     empty_page\<lparr>error := str ''TTS API '' @ [0x2192] @ str '' 429 Too Many Requests'',
                 loading := False,
                 transcript := str ''Host: a\<newline>Guest: b\<newline>Host: c'',
                 segments := [], currentIdx := 0, audioReady := False\<rparr>"
    by (simp add: texts toString_429 content_of_def str_def)
  from second [THEN conjunct2, THEN conjunct2, THEN conjunct1, THEN mp, OF empty_page_guard]
  have run': "generatePodcast down_env empty_page =
     empty_page\<lparr>error := str ''TTS API '' @ [0x2192] @ str '' 503 Service Unavailable'',
                 loading := False,
                 transcript := str ''Host: a\<newline>Guest: b\<newline>Host: c'',
                 segments := [], currentIdx := 0, audioReady := False\<rparr>"
    by (simp add: texts toString_503 content_of_def str_def)
  show ?thesis
    unfolding run' by (simp add: run sent)
qed

section \<open>Properties of the history\<close>

lemma length_insert_newest_first: "length (insert_newest_first a bs) = Suc (length bs)"
  by (induction bs) simp_all

lemma length_sort_newest_first: "length (sort_newest_first h) = length h"
  unfolding sort_newest_first_def by (induction h) (simp_all add: length_insert_newest_first)

lemma save_within_cap:
  "history_within_cap st \<Longrightarrow> history_within_cap (savePodcastToHistory E tp tr segs st)"
  by (cases "podcast_history st")
     (simp_all add: history_within_cap_def savePodcastToHistory_def Let_def)

lemma handle_within_cap: "history_within_cap st \<Longrightarrow> history_within_cap (handle ev st)"
proof (cases ev)
  case LoadHistory
  assume "history_within_cap st"
  with LoadHistory show ?thesis
    by (cases "podcast_history st")
       (simp_all add: history_within_cap_def loadPodcastHistory_def length_sort_newest_first)
next
  case (Save E tp tr segs)
  assume "history_within_cap st"
  with Save show ?thesis by (simp add: save_within_cap)
next
  case (GenerateSpeech E called)
  assume c: "history_within_cap st"
  have "history_within_cap (st\<lparr>segments := segs\<rparr>)" for segs
    using c by (simp add: history_within_cap_def)
  from save_within_cap [OF this] c GenerateSpeech show ?thesis
    by (simp add: generatePodcast_speech_def history_within_cap_def split: sum.splits)
qed (simp_all add: history_within_cap_def clearHistory_def loadPodcastFromHistory_def
      generatePodcast_begin_def generatePodcast_transcript_def skipNext_def onEnded_def
      onCanPlay_def onLoadStart_def onError_def changePlaybackSpeed_def
      split: option.splits sum.splits)

lemma run_events_within_cap:
  "history_within_cap st \<Longrightarrow> history_within_cap (run_events evs st)"
  unfolding run_events_def
  by (induction evs arbitrary: st) (simp_all add: handle_within_cap)

text \<open>
  Claim C3, as the claim states it, fails: not every save puts the new podcast at the
  head. The body of \<^verbatim>\<open>savePodcastToHistory\<close> is in a \<^verbatim>\<open>try\<close> whose \<^verbatim>\<open>catch\<close> only logs,
  so a save whose write throws records nothing. Here an eleventh podcast is saved on the
  full history while the storage refuses the write: the ten old entries stay, the oldest
  with them, and the new podcast is not in the list.
\<close>

theorem failed_save_records_nothing:
  "map id_sp (podcastHistory (savePodcastToHistory full_env (str ''tea'') [] [] ten_page)) =
     [str ''10'', str ''9'', str ''8'', str ''7'', str ''6'', str ''5'', str ''4'', str ''3'',
      str ''2'', str ''1''] \<and>
   hd (podcastHistory (savePodcastToHistory full_env (str ''tea'') [] [] ten_page)) \<noteq>
     \<lparr>id_sp = str ''1700'', StoredPodcast.topic = str ''tea'', StoredPodcast.transcript = [],
       StoredPodcast.segments = [], createdAt = 1700\<rparr>"
  by code_simp


text \<open>
  Claim C3, amended. Neither the history of the page nor the stored list ever gets longer
  than 10: whatever events come, in whatever order, and whatever the services answer, a
  page within the cap stays within it. A save whose write is accepted builds the podcast
  from the clock reading, the topic, the transcript and the segments, puts it at the head
  of the stored list and writes and shows the first 10 entries of the result; on a stored
  list of 10 these are the new podcast followed by the old list without its last, oldest
  entry, 10 entries again; with nothing stored the new podcast is the only entry. A save
  whose write throws, or whose stored item does not parse, leaves the page and the
  storage as they were.
\<close>

theorem history_capped_at_ten:
  "(history_within_cap st0 \<longrightarrow> history_within_cap (run_events evs st0)) \<and>
   (podcast_history st = Items old \<and> \<not> setItem_throws E \<longrightarrow>
      podcastHistory (savePodcastToHistory E tp tr segs st) =
        take 10 (\<lparr>id_sp = toString (now_id E), StoredPodcast.topic = tp,
                   StoredPodcast.transcript = tr, StoredPodcast.segments = segs,
                   createdAt = now_createdAt E\<rparr> # old) \<and>
      podcast_history (savePodcastToHistory E tp tr segs st) =
        Items (take 10 (\<lparr>id_sp = toString (now_id E), StoredPodcast.topic = tp,
                          StoredPodcast.transcript = tr, StoredPodcast.segments = segs,
                          createdAt = now_createdAt E\<rparr> # old)) \<and>
      (length old = 10 \<longrightarrow>
         podcastHistory (savePodcastToHistory E tp tr segs st) =
           \<lparr>id_sp = toString (now_id E), StoredPodcast.topic = tp,
             StoredPodcast.transcript = tr, StoredPodcast.segments = segs,
             createdAt = now_createdAt E\<rparr> # butlast old \<and>
         length (podcastHistory (savePodcastToHistory E tp tr segs st)) = 10)) \<and>
   (podcast_history st = NoItem \<and> \<not> setItem_throws E \<longrightarrow>
      podcastHistory (savePodcastToHistory E tp tr segs st) =
        [\<lparr>id_sp = toString (now_id E), StoredPodcast.topic = tp,
           StoredPodcast.transcript = tr, StoredPodcast.segments = segs,
           createdAt = now_createdAt E\<rparr>] \<and>
      podcast_history (savePodcastToHistory E tp tr segs st) =
        Items [\<lparr>id_sp = toString (now_id E), StoredPodcast.topic = tp,
                 StoredPodcast.transcript = tr, StoredPodcast.segments = segs,
                 createdAt = now_createdAt E\<rparr>]) \<and>
   (podcast_history st = Unparsable \<or> setItem_throws E \<longrightarrow>
      savePodcastToHistory E tp tr segs st = st)"
proof -
  have stays: "savePodcastToHistory E tp tr segs st = st"
    if "podcast_history st = Unparsable \<or> setItem_throws E"
    using that by (cases "podcast_history st") (auto simp: savePodcastToHistory_def Let_def)
  have eleven: "take 10 (p # old) = p # butlast old \<and> length (p # butlast old) = 10"
    if "length old = 10" for p :: StoredPodcast
    using that by (simp add: take_Cons' butlast_conv_take)
  show ?thesis
    using stays eleven run_events_within_cap [of st0 evs]
    by (auto simp: savePodcastToHistory_def newPodcast_def Let_def simp del: take_Cons_numeral)
qed

theorem history_capped_at_ten_witness:
  "map id_sp (podcastHistory (savePodcastToHistory demo_env (str ''tea'') [] [] ten_page)) =
     [str ''1700'', str ''10'', str ''9'', str ''8'', str ''7'', str ''6'', str ''5'', str ''4'',
      str ''3'', str ''2''] \<and>
   length (podcastHistory (savePodcastToHistory demo_env (str ''tea'') [] [] ten_page)) = 10 \<and>
   podcastHistory (savePodcastToHistory demo_env (str ''tea'') [] [] empty_page) =
     [\<lparr>id_sp = str ''1700'', StoredPodcast.topic = str ''tea'', StoredPodcast.transcript = [],
        StoredPodcast.segments = [], createdAt = 1700\<rparr>] \<and>
   savePodcastToHistory full_env (str ''tea'') [] [] ten_page = ten_page \<and>
   history_within_cap
     (run_events [Save demo_env (str ''tea'') [] [], LoadHistory, Save full_env (str ''jazz'') [] []]
        ten_page)"
proof -
  have stored: "podcast_history ten_page = Items ten_podcasts"
    by (simp add: ten_page_def)
  have none: "podcast_history empty_page = NoItem"
    by (simp add: empty_page_def)
  have accepted: "\<not> setItem_throws demo_env"
    by (simp add: demo_env_def)
  have refused: "setItem_throws full_env"
    by (simp add: full_env_def)
  have full: "length ten_podcasts = 10"
    by (simp add: ten_podcasts_def)
  have within: "history_within_cap ten_page"
    by (simp add: history_within_cap_def ten_page_def ten_podcasts_def)
  have clock: "now_id demo_env = 1700" "now_createdAt demo_env = 1700"
    by (simp_all add: demo_env_def)
  have rest: "map id_sp (butlast ten_podcasts) =
      [str ''10'', str ''9'', str ''8'', str ''7'', str ''6'', str ''5'', str ''4'', str ''3'', str ''2'']"
    by code_simp
  note ok_full = history_capped_at_ten [where st = ten_page and old = ten_podcasts and E = demo_env
      and tp = "str ''tea''" and tr = "[]" and segs = "[]" and st0 = ten_page
      and evs = "[Save demo_env (str ''tea'') [] [], LoadHistory, Save full_env (str ''jazz'') [] []]"]
  note ok_empty = history_capped_at_ten [where st = empty_page and E = demo_env
      and tp = "str ''tea''" and tr = "[]" and segs = "[]"]
  note thrown = history_capped_at_ten [where st = ten_page and E = full_env
      and tp = "str ''tea''" and tr = "[]" and segs = "[]"]
  from ok_full stored accepted full within
  have a: "podcastHistory (savePodcastToHistory demo_env (str ''tea'') [] [] ten_page) =
      \<lparr>id_sp = toString (now_id demo_env), StoredPodcast.topic = str ''tea'',
        StoredPodcast.transcript = [], StoredPodcast.segments = [],
        createdAt = now_createdAt demo_env\<rparr> # butlast ten_podcasts"
    and b: "length (podcastHistory (savePodcastToHistory demo_env (str ''tea'') [] [] ten_page)) = 10"
    and c: "history_within_cap
     (run_events [Save demo_env (str ''tea'') [] [], LoadHistory, Save full_env (str ''jazz'') [] []]
        ten_page)"
    by blast+
  from ok_empty none accepted
  have d: "podcastHistory (savePodcastToHistory demo_env (str ''tea'') [] [] empty_page) =
      [\<lparr>id_sp = toString (now_id demo_env), StoredPodcast.topic = str ''tea'',
         StoredPodcast.transcript = [], StoredPodcast.segments = [],
         createdAt = now_createdAt demo_env\<rparr>]"
    by blast
  from thrown refused
  have e: "savePodcastToHistory full_env (str ''tea'') [] [] ten_page = ten_page"
    by blast
  from a b c d e show ?thesis
    by (simp add: clock toString_1700 rest)
qed


lemma ids_from_cons:
  assumes "ids_from T h" and "t \<notin> T" and "id_sp p = toString t"
  shows "ids_from (insert t T) (take 10 (p # h))"
proof -
  have t: "take 10 (p # h) = p # take 9 h"
    by (simp add: take_Cons')
  have "id_sp p \<notin> set (map id_sp h)"
    using assms by (auto simp: ids_from_def dest!: toString_inj)
  moreover have "set (map id_sp (take 9 h)) \<subseteq> set (map id_sp h)"
    by (metis set_take_subset take_map)
  moreover have "distinct (map id_sp (take 9 h))"
    using assms(1) by (simp add: ids_from_def take_map [symmetric])
  ultimately show ?thesis
    using assms unfolding t ids_from_def by auto
qed

lemma ids_from_mono: "ids_from T h \<Longrightarrow> ids_from (insert t T) h"
  by (auto simp: ids_from_def)

lemma ids_from_Nil: "ids_from T []"
  by (simp add: ids_from_def)

lemma newPodcast_id: "id_sp (newPodcast E tp tr segs) = toString (now_id E)"
  by (simp add: newPodcast_def)

lemma save_keeps_ids:
  assumes "history_ids_from T st" and "now_id E \<notin> T"
  shows "history_ids_from (insert (now_id E) T) (savePodcastToHistory E tp tr segs st)"
proof (cases "podcast_history st")
  case NoItem
  with assms ids_from_cons [OF ids_from_Nil assms(2) newPodcast_id] show ?thesis
    by (auto simp: history_ids_from_def savePodcastToHistory_def Let_def ids_from_mono)
next
  case Unparsable
  with assms show ?thesis
    by (auto simp: history_ids_from_def savePodcastToHistory_def ids_from_mono)
next
  case (Items h)
  with assms have "ids_from T h"
    by (simp add: history_ids_from_def)
  from ids_from_cons [OF this assms(2) newPodcast_id] Items assms show ?thesis
    by (auto simp: history_ids_from_def savePodcastToHistory_def Let_def ids_from_mono)
qed

lemma save_all_keeps_ids:
  assumes "history_ids_from T st"
    and "distinct (map (\<lambda>s. now_id (fst s)) saves)"
    and "set (map (\<lambda>s. now_id (fst s)) saves) \<inter> T = {}"
  shows "history_ids_from (T \<union> set (map (\<lambda>s. now_id (fst s)) saves)) (save_all saves st)"
  using assms
proof (induction saves arbitrary: T st)
  case Nil
  then show ?case by (simp add: save_all_def)
next
  case (Cons s saves)
  obtain E tp tr segs where s: "s = (E, tp, tr, segs)"
    by (cases s) auto
  have "now_id E \<notin> T"
    using Cons.prems(3) s by auto
  from save_keeps_ids [OF Cons.prems(1) this]
  have first: "history_ids_from (insert (now_id E) T) (savePodcastToHistory E tp tr segs st)" .
  have rest: "distinct (map (\<lambda>s. now_id (fst s)) saves)"
    using Cons.prems(2) by simp
  have fresh: "set (map (\<lambda>s. now_id (fst s)) saves) \<inter> insert (now_id E) T = {}"
    using Cons.prems(2,3) s by auto
  from Cons.IH [OF first rest fresh] show ?case
    by (simp add: save_all_def s)
qed

text \<open>
  Claim C8, as the claim states it, fails: the id of a stored podcast is the clock reading
  of the save, so two saves that read the same millisecond give two entries with the same
  id. Here two podcasts are saved at the reading 1700.
\<close>

theorem same_clock_reading_same_id:
  "\<not> distinct (map id_sp (podcastHistory
      (savePodcastToHistory demo_env (str ''tea'') [] []
        (savePodcastToHistory demo_env (str ''jazz'') [] [] empty_page))))"
  by code_simp

text \<open>
  Claim C8, amended. Every save gives the new podcast the decimal text of the clock
  reading \<^verbatim>\<open>Date.now()\<close> as its id. For every sequence of saves that starts on an empty
  history and whose clock readings are pairwise distinct, the ids of the podcasts in the
  history of the page are pairwise distinct, and so are those of the stored list.
\<close>

theorem ids_distinct_for_distinct_clock_readings:
  assumes "distinct (map (\<lambda>s. now_id (fst s)) saves)"
    and "podcastHistory st = []"
    and "podcast_history st = NoItem"
  shows "id_sp (newPodcast E tp tr segs) = toString (now_id E) \<and>
         distinct (map id_sp (podcastHistory (save_all saves st))) \<and>
         distinct (map id_sp (existing_history (save_all saves st)))"
proof -
  have "history_ids_from {} st"
    using assms(2,3) by (simp add: history_ids_from_def ids_from_def)
  from save_all_keeps_ids [OF this assms(1)]
  have "history_ids_from ({} \<union> set (map (\<lambda>s. now_id (fst s)) saves)) (save_all saves st)"
    by simp
  then show ?thesis
    by (auto simp: history_ids_from_def ids_from_def existing_history_def newPodcast_id
        split: stored.splits)
qed

theorem ids_distinct_for_distinct_clock_readings_witness:
  "map id_sp (podcastHistory
      (save_all [(demo_env, str ''jazz'', [], []), (demo_env\<lparr>now_id := 1701\<rparr>, str ''tea'', [], [])]
         empty_page)) = [str ''1701'', str ''1700''] \<and>
   distinct (map id_sp (podcastHistory
      (save_all [(demo_env, str ''jazz'', [], []), (demo_env\<lparr>now_id := 1701\<rparr>, str ''tea'', [], [])]
         empty_page)))"
proof -
  let ?saves = "[(demo_env, str ''jazz'', [], []), (demo_env\<lparr>now_id := 1701\<rparr>, str ''tea'', [], [])]"
  have readings: "distinct (map (\<lambda>s. now_id (fst s)) ?saves)"
    by (simp add: demo_env_def)
  have shown: "podcastHistory empty_page = []"
    by (simp add: empty_page_def)
  have stored: "podcast_history empty_page = NoItem"
    by (simp add: empty_page_def)
  have ids: "map id_sp (podcastHistory (save_all ?saves empty_page)) = [str ''1701'', str ''1700'']"
    by code_simp
  from ids_distinct_for_distinct_clock_readings [OF readings shown stored] ids
  show ?thesis
    by simp
qed

section \<open>Properties of a whole run\<close>

text \<open>
  Claim C10. When the speech loop has ended with a segment list and the write to the
  storage throws, \<^verbatim>\<open>savePodcastToHistory\<close> leaves the page as it was, and the last part
  of \<^verbatim>\<open>generatePodcast\<close> only installs the segments and ends the loading: it sets no
  error, and the history is as before. A run that nothing interrupts ends with no error
  and with the segments on the page.
\<close>

theorem failed_save_is_silent:
  assumes gen: "generateContent E (apiKey called) (topic called) = Inr txt"
    and tts: "snd (tts_per_chunk E (openaiKey called) (split_by_speaker (content_of txt)) 0 []) = Inr segs"
    and full: "setItem_throws E"
  shows "savePodcastToHistory E tp tr segs st = st \<and>
         generatePodcast_speech E called st = st\<lparr>segments := segs, loading := False\<rparr> \<and>
         (generatePodcast_guard called = None \<longrightarrow>
            generatePodcast E called =
              called\<lparr>error := [], loading := False, transcript := content_of txt,
                      segments := segs, currentIdx := 0, audioReady := False\<rparr>)"
proof -
  have save: "savePodcastToHistory E tp' tr' segs' st' = st'" for tp' tr' segs' st'
    using full by (cases "podcast_history st'") (simp_all add: savePodcastToHistory_def Let_def)
  have speech: "generatePodcast_speech E called st' = st'\<lparr>segments := segs, loading := False\<rparr>" for st'
    by (simp add: generatePodcast_speech_def gen tts save)
  have "generatePodcast E called =
              called\<lparr>error := [], loading := False, transcript := content_of txt,
                      segments := segs, currentIdx := 0, audioReady := False\<rparr>"
    if "generatePodcast_guard called = None"
    using that
    by (simp add: generatePodcast_def speech generatePodcast_transcript_def gen generatePodcast_begin_def)
  with save speech show ?thesis by simp
qed

theorem failed_save_is_silent_witness:
  "generatePodcast full_env empty_page =
     empty_page\<lparr>transcript := str ''Host: a\<newline>Guest: b\<newline>Host: c'',
                 segments := [\<lparr>speaker = host, text = str '' a '', url = str ''blob:0''\<rparr>,
                              \<lparr>speaker = guest, text = str '' b '', url = str ''blob:1''\<rparr>,
                              \<lparr>speaker = host, text = str '' c '', url = str ''blob:2''\<rparr>]\<rparr> \<and>
   error (generatePodcast full_env empty_page) = [] \<and>
   podcastHistory (generatePodcast full_env empty_page) = []"
proof -
  let ?txt = "Some (str ''Host: a\<newline>Guest: b\<newline>Host: c'')"
  let ?segs = "[\<lparr>speaker = host, text = str '' a '', url = str ''blob:0''\<rparr>,
                \<lparr>speaker = guest, text = str '' b '', url = str ''blob:1''\<rparr>,
                \<lparr>speaker = host, text = str '' c '', url = str ''blob:2''\<rparr>]"
  have gen: "generateContent full_env (apiKey empty_page) (topic empty_page) = Inr ?txt"
    by (simp add: full_env_def demo_env_def)
  have tts: "snd (tts_per_chunk full_env (openaiKey empty_page) (split_by_speaker (content_of ?txt)) 0 []) = Inr ?segs"
    by code_simp
  have full: "setItem_throws full_env"
    by (simp add: full_env_def)
  from failed_save_is_silent [OF gen tts full, of "[]" "[]" empty_page] empty_page_guard
  show ?thesis
    by (simp add: content_of_def empty_page_def)
qed

section \<open>Properties of the playback\<close>

text \<open>
  The two handlers that advance the index keep it inside the list, and do nothing at the
  last index.
\<close>

lemma skipNext_in_range:
  "currentIdx st < length (segments st) \<Longrightarrow>
   currentIdx (skipNext st) < length (segments (skipNext st))"
  by (simp add: skipNext_def)

lemma skipNext_at_last: "currentIdx st + 1 = length (segments st) \<Longrightarrow> skipNext st = st"
  by (simp add: skipNext_def)

lemma onEnded_in_range:
  "currentIdx st < length (segments st) \<Longrightarrow>
   currentIdx (onEnded st) < length (segments (onEnded st))"
  by (simp add: onEnded_def)

lemma onEnded_at_last: "currentIdx st + 1 = length (segments st) \<Longrightarrow> onEnded st = st"
  by (simp add: onEnded_def)

text \<open>
  Opening a podcast of the history, and a run of \<^verbatim>\<open>generatePodcast\<close> that nothing
  interrupts, leave the index at 0.
\<close>

lemma loadPodcastFromHistory_index: "currentIdx (loadPodcastFromHistory podcast st) = 0"
  by (simp add: loadPodcastFromHistory_def)

lemma savePodcastToHistory_index:
  "currentIdx (savePodcastToHistory E tp tr segs st) = currentIdx st"
  by (cases "podcast_history st") (simp_all add: savePodcastToHistory_def Let_def)

lemma generatePodcast_speech_index: "currentIdx (generatePodcast_speech E called st) = currentIdx st"
  by (simp add: generatePodcast_speech_def savePodcastToHistory_index split: sum.splits)

lemma generatePodcast_index:
  "generatePodcast_guard st = None \<Longrightarrow> currentIdx (generatePodcast E st) = 0"
  by (simp add: generatePodcast_def generatePodcast_speech_index generatePodcast_transcript_def
      generatePodcast_begin_def split: sum.splits)

text \<open>
  The effect never asks the element to play at the index 0; at any other index that has a
  segment it attaches the segment and asks to play it.
\<close>

lemma playback_effect_first:
  "segments st \<noteq> [] \<Longrightarrow> currentIdx st = 0 \<Longrightarrow>
   playback_effect st = [SetSrc (url (segments st ! 0)), SetPlaybackRate (playbackSpeed st), Load]"
  by (simp add: playback_effect_def)

lemma playback_effect_later:
  "0 < currentIdx st \<Longrightarrow> currentIdx st < length (segments st) \<Longrightarrow>
   playback_effect st =
     [SetSrc (url (segments st ! currentIdx st)), SetPlaybackRate (playbackSpeed st), Play]"
  by (auto simp: playback_effect_def)

text \<open>
  Claim C4 does not hold of the page. The handlers of skip and of the end of a segment are
  as the claim says, but the index can still be out of the installed list: a run of
  \<^verbatim>\<open>generatePodcast\<close> sets the index to 0 when it starts and installs its segments when
  it ends, without setting the index again. Here the user opens the podcast of four
  segments of the history while the run waits for the speech service, and presses skip
  three times; the run then installs its three segments, and the index is 3.
\<close>

theorem interrupted_run_index_out_of_range:
  "segments (interrupted_run 3) \<noteq> [] \<and>
   length (segments (interrupted_run 3)) = 3 \<and>
   currentIdx (interrupted_run 3) = 3"
  by code_simp

text \<open>
  Claim C5 does not hold of the page, by the same course of events with two presses of
  skip: the run installs its three segments while the index is 2, and the effect attaches
  the third segment and asks the element to play it. The first segment of the new list is
  not attached, and the list starts to play with no press of the play button.
\<close>

theorem interrupted_run_autoplays:
  "segments (interrupted_run 2) =
     [\<lparr>speaker = host, text = str '' a '', url = str ''blob:0''\<rparr>,
      \<lparr>speaker = guest, text = str '' b '', url = str ''blob:1''\<rparr>,
      \<lparr>speaker = host, text = str '' c '', url = str ''blob:2''\<rparr>] \<and>
   playback_effect (interrupted_run 2) = [SetSrc (str ''blob:2''), SetPlaybackRate 1, Play]"
  by code_simp

end
